theory Spec2Isabelle
  imports Main
begin

section \<open>JavaScript strings and arrays\<close>

text \<open>
  Strings are modelled as \<^typ>\<open>string\<close> (lists of characters). The functions below are
  the built-ins the sources call: \<^verbatim>\<open>String.prototype.split\<close> with a one-character
  separator, \<^verbatim>\<open>Array.prototype.join\<close>, \<^verbatim>\<open>Array.prototype.slice\<close> and the two
  anchored regular expression replacements of \<^verbatim>\<open>mapPathToResource\<close>.

  The definitions compare strings and look for the characters \<^verbatim>\<open>/\<close>, \<^verbatim>\<open>?\<close> and
  \<^verbatim>\<open>*\<close> only, so they do not depend on how a character outside ASCII is written as
  a sequence of \<^typ>\<open>char\<close>.

  \<^verbatim>\<open>String.prototype.toUpperCase\<close> applies the full Unicode case mapping, under which
  characters outside ASCII can turn into ASCII letters (the long s becomes S). It is not
  defined here: the functions that call it take it as their first argument
  \<open>toUpperCase\<close>. Its behaviour on ASCII text is \<open>toUpperCase_ascii\<close> below.
\<close>

text \<open>\<^verbatim>\<open>s.split(c)\<close>: a separator starts a new segment, any other character
  extends the first segment of the rest. The result is never empty
  (\<^verbatim>\<open>''.split('/')\<close> is \<^verbatim>\<open>['']\<close>), so the first case below is never taken.\<close>

fun js_split :: "char \<Rightarrow> string \<Rightarrow> string list" where
  "js_split c [] = [[]]"
| "js_split c (x # xs) =
     (case js_split c xs of
        [] \<Rightarrow> []
      | seg # segs \<Rightarrow> if x = c then [] # seg # segs else (x # seg) # segs)"

text \<open>\<^verbatim>\<open>xs.join(sep)\<close>.\<close>

fun js_join :: "string \<Rightarrow> string list \<Rightarrow> string" where
  "js_join sep [] = []"
| "js_join sep [x] = x"
| "js_join sep (x # y # ys) = x @ sep @ js_join sep (y # ys)"

text \<open>\<^verbatim>\<open>xs.slice(s, e)\<close> for \<open>0 \<le> s\<close> and \<open>0 \<le> e\<close>; empty when \<open>e \<le> s\<close>.
  The source's \<^verbatim>\<open>slice(i + 1, -1)\<close> is \<open>slice (i + 1) (length xs - 1)\<close>.\<close>

definition slice :: "nat \<Rightarrow> nat \<Rightarrow> 'a list \<Rightarrow> 'a list" where
  "slice s e xs = take (e - s) (drop s xs)"

definition lower_letters :: string where
  "lower_letters = ''abcdefghijklmnopqrstuvwxyz''"

definition upper_letters :: string where
  "upper_letters = ''ABCDEFGHIJKLMNOPQRSTUVWXYZ''"

text \<open>On ASCII text \<^verbatim>\<open>toUpperCase\<close> maps the letters a to z to A to Z and leaves every
  other character as it is.\<close>

definition is_ascii :: "string \<Rightarrow> bool" where
  "is_ascii s = list_all (\<lambda>c. \<not> digit7 c) s"

definition toUpperCase_ascii_char :: "char \<Rightarrow> char" where
  "toUpperCase_ascii_char c =
     (case map_of (zip lower_letters upper_letters) c of Some u \<Rightarrow> u | None \<Rightarrow> c)"

definition toUpperCase_ascii :: "string \<Rightarrow> string" where
  "toUpperCase_ascii s = map toUpperCase_ascii_char s"

text \<open>\<^verbatim>\<open>s.replace(/^\/+/, '')\<close>: the leading run of slashes is removed.\<close>

fun replace_leading_slashes :: "string \<Rightarrow> string" where
  "replace_leading_slashes [] = []"
| "replace_leading_slashes (c # cs) =
     (if c = CHR ''/'' then replace_leading_slashes cs else c # cs)"

text \<open>\<^verbatim>\<open>s.replace(/\/+$/, '')\<close>: the leftmost position from which only slashes
  follow up to the end of the input starts the match, which is removed.\<close>

fun replace_trailing_slashes :: "string \<Rightarrow> string" where
  "replace_trailing_slashes [] = []"
| "replace_trailing_slashes (c # cs) =
     (if c = CHR ''/'' \<and> list_all (\<lambda>d. d = CHR ''/'') cs then []
      else c # replace_trailing_slashes cs)"

text \<open>\<^verbatim>\<open>(s.match(/\*/g) || []).length\<close>: the number of asterisks in the string.\<close>

definition count_asterisks :: "string \<Rightarrow> nat" where
  "count_asterisks s = length (filter (\<lambda>c. c = CHR ''*'') s)"


section \<open>utils/pathMapper.ts\<close>

datatype PermissionAction = Read | Write | Delete

datatype PermissionEffect = Allow | Deny

datatype error = Error string | TypeError string

text \<open>The text of an action inside a template string.\<close>

fun action_text :: "PermissionAction \<Rightarrow> string" where
  "action_text Read = ''read''"
| "action_text Write = ''write''"
| "action_text Delete = ''delete''"

definition mapHttpMethodToAction ::
  "(string \<Rightarrow> string) \<Rightarrow> string \<Rightarrow> error + PermissionAction" where
  "mapHttpMethodToAction toUpperCase method =
     (let m = toUpperCase method in
      if m = ''GET'' then Inr Read
      else if m = ''POST'' \<or> m = ''PUT'' \<or> m = ''PATCH'' then Inr Write
      else if m = ''DELETE'' then Inr Delete
      else Inl (Error (''Unsupported HTTP method: '' @ method)))"

definition mapPathToResource :: "string \<Rightarrow> string" where
  "mapPathToResource path =
     (let cleanPath = hd (js_split (CHR ''?'') (replace_leading_slashes path));
          cleanPath = replace_trailing_slashes cleanPath
      in if cleanPath = [] then ''*'' else cleanPath)"

text \<open>A \<^verbatim>\<open>Set<string>\<close> keeps insertion order; \<^verbatim>\<open>add\<close> of a member changes nothing.\<close>

definition set_add :: "string list \<Rightarrow> string \<Rightarrow> string list" where
  "set_add patterns p = (if p \<in> set patterns then patterns else patterns @ [p])"

text \<open>\<^verbatim>\<open>for (let i = segments.length - 1; i > 0; i--)\<close> with
  \<^verbatim>\<open>segments.slice(0, i).join('/')\<close> followed by \<^verbatim>\<open>/*\<close>.\<close>

definition parentWildcards :: "string list \<Rightarrow> string list" where
  "parentWildcards segments =
     map (\<lambda>i. js_join ''/'' (slice 0 i segments) @ ''/*'') (rev [1..<length segments])"

text \<open>\<^verbatim>\<open>segments.map((seg, idx) => idx === i ? '*' : seg)\<close>.\<close>

definition wildcardAt :: "nat \<Rightarrow> string list \<Rightarrow> string list" where
  "wildcardAt i segments =
     map (\<lambda>idx. if idx = i then ''*'' else segments ! idx) [0..<length segments]"

text \<open>\<^verbatim>\<open>segments.map((seg, idx) => (idx === i || idx === j) ? '*' : seg)\<close>.\<close>

definition wildcardAt2 :: "nat \<Rightarrow> nat \<Rightarrow> string list \<Rightarrow> string list" where
  "wildcardAt2 i j segments =
     map (\<lambda>idx. if idx = i \<or> idx = j then ''*'' else segments ! idx) [0..<length segments]"

text \<open>The version of \<^verbatim>\<open>src/utils/pathMapper.ts\<close>.\<close>

definition generateResourcePatterns :: "string \<Rightarrow> string list" where
  "generateResourcePatterns resource =
     (let patterns = [resource];
          segments = js_split (CHR ''/'') resource;
          n = length segments;
          patterns = foldl set_add patterns (parentWildcards segments);
          patterns =
            (if n \<ge> 3 then
               (let patterns = set_add patterns (hd segments @ ''/*/'' @ last segments)
                in if n > 3
                   then foldl set_add patterns
                          (map (\<lambda>i. js_join ''/'' (wildcardAt i segments)) [1..<n - 1])
                   else patterns)
             else patterns);
          patterns =
            (if n \<ge> 4 then
               foldl set_add patterns
                 (map (\<lambda>i. js_join ''/''
                              (slice 0 i segments @ [''*''] @ slice (i + 1) (n - 1) segments @ [''*'']))
                      [1..<n - 2])
             else patterns)
      in set_add patterns ''*'')"

text \<open>The other version of the same file in the repository (\<^verbatim>\<open>unnamed/part_000\<close>):
  an array that is deduplicated at the end by \<^verbatim>\<open>[...new Set(patterns)]\<close>.\<close>

definition generateResourcePatterns_part_000 :: "string \<Rightarrow> string list" where
  "generateResourcePatterns_part_000 resource =
     (let segments = js_split (CHR ''/'') resource;
          n = length segments;
          patterns = [resource];
          patterns = patterns @ parentWildcards segments;
          patterns =
            (if n \<ge> 3
             then patterns @ map (\<lambda>i. js_join ''/'' (wildcardAt i segments)) [1..<n - 1]
             else patterns);
          patterns =
            (if n \<ge> 4
             then patterns @
                  concat (map (\<lambda>i. map (\<lambda>j. js_join ''/'' (wildcardAt2 i j segments)) [i + 2..<n])
                              [1..<n - 2])
             else patterns);
          patterns = patterns @ [''*'']
      in foldl set_add [] patterns)"

text \<open>A JavaScript number as far as the scores need it: an integer or \<^verbatim>\<open>-Infinity\<close>.\<close>

datatype jsnum = NegInfinity | Num int

type_synonym SpecificityScore = "jsnum \<times> jsnum \<times> jsnum"

definition calculateSpecificityScore :: "string \<Rightarrow> string \<Rightarrow> SpecificityScore" where
  "calculateSpecificityScore resource matchedResource =
     (if matchedResource = ''*'' then (Num 0, Num 0, NegInfinity)
      else
        (let segments = js_split (CHR ''/'') matchedResource;
             wildcardCount = int (count_asterisks matchedResource);
             nonWildcardSegments = int (length segments) - wildcardCount
         in (if resource = matchedResource then Num 1 else Num 0,
             Num nonWildcardSegments,
             Num (- wildcardCount))))"


section \<open>types\<close>

datatype AuthorizationDecision = ALLOW | DENY

text \<open>A row of the \<^verbatim>\<open>SELECT action, resource, effect\<close> of the repository.\<close>

record PermissionRow =
  row_action :: PermissionAction
  row_resource :: string
  row_effect :: PermissionEffect

text \<open>\<^verbatim>\<open>MatchedPermissionWithScore\<close>: the score is present.\<close>

record MatchedPermissionWithScore =
  sp_action :: PermissionAction
  sp_resource :: string
  sp_effect :: PermissionEffect
  sp_score :: SpecificityScore

text \<open>\<^verbatim>\<open>MatchedPermission\<close>: the field \<^verbatim>\<open>score?\<close> is optional.\<close>

record MatchedPermission =
  mp_action :: PermissionAction
  mp_resource :: string
  mp_effect :: PermissionEffect
  mp_score :: "SpecificityScore option"

record PermissionCheckResult =
  allowed :: bool
  matchedPermissions :: "MatchedPermission list"
  reason :: string

record AuthorizeRequest =
  access_token :: string
  req_method :: string
  req_path :: string

record AuthorizeResponse =
  decision :: AuthorizationDecision
  user_id :: string
  response_reason :: string
  matched_permissions :: "MatchedPermission list"

text \<open>\<^verbatim>\<open>userInfo\<close> has type \<^verbatim>\<open>any\<close>; only its property \<^verbatim>\<open>nickname\<close> is read.\<close>

record UserInfo =
  nickname :: "string option"

type_synonym TokenPayload = "(string \<times> string) list"

record ValidationResult =
  valid :: bool
  payload :: "TokenPayload option"
  userInfo :: "UserInfo option"
  validation_error :: "string option"


section \<open>repositories/permissionRepository.ts\<close>

text \<open>The sign of \<^verbatim>\<open>x - y\<close>. The comparators call it on different numbers only, so
  \<^verbatim>\<open>-Infinity - -Infinity\<close> (not a number) is never computed there.\<close>

fun sub_sign :: "jsnum \<Rightarrow> jsnum \<Rightarrow> int" where
  "sub_sign (Num x) (Num y) = sgn (x - y)"
| "sub_sign NegInfinity (Num y) = - 1"
| "sub_sign (Num x) NegInfinity = 1"
| "sub_sign NegInfinity NegInfinity = 0"

text \<open>\<^verbatim>\<open>for (let i = 0; i < a.score.length; i++) if (a.score[i] !== b.score[i])
  return b.score[i] - a.score[i]\<close>, then \<^verbatim>\<open>return 0\<close>.\<close>

fun compareScores :: "SpecificityScore \<Rightarrow> SpecificityScore \<Rightarrow> int" where
  "compareScores (a0, a1, a2) (b0, b1, b2) =
     (if a0 \<noteq> b0 then sub_sign b0 a0
      else if a1 \<noteq> b1 then sub_sign b1 a1
      else if a2 \<noteq> b2 then sub_sign b2 a2
      else 0)"

definition comparePermissions ::
  "MatchedPermissionWithScore \<Rightarrow> MatchedPermissionWithScore \<Rightarrow> int" where
  "comparePermissions a b =
     (if sp_effect a \<noteq> sp_effect b then (if sp_effect a = Deny then - 1 else 1)
      else compareScores (sp_score a) (sp_score b))"

text \<open>\<^verbatim>\<open>Array.prototype.sort\<close> with a comparator: a stable sort, here by insertion.
  An element stays in front of the later ones it does not compare greater than.\<close>

fun insert_sorted :: "('a \<Rightarrow> 'a \<Rightarrow> int) \<Rightarrow> 'a \<Rightarrow> 'a list \<Rightarrow> 'a list" where
  "insert_sorted cmp x [] = [x]"
| "insert_sorted cmp x (y # ys) =
     (if cmp x y \<le> 0 then x # y # ys else y # insert_sorted cmp x ys)"

definition array_sort :: "('a \<Rightarrow> 'a \<Rightarrow> int) \<Rightarrow> 'a list \<Rightarrow> 'a list" where
  "array_sort cmp xs = foldr (insert_sorted cmp) xs []"

text \<open>\<^verbatim>\<open>{...perm, score: calculateSpecificityScore(resource, perm.resource)}\<close>.\<close>

definition withScore :: "string \<Rightarrow> PermissionRow \<Rightarrow> MatchedPermissionWithScore" where
  "withScore resource perm =
     \<lparr>sp_action = row_action perm, sp_resource = row_resource perm, sp_effect = row_effect perm,
      sp_score = calculateSpecificityScore resource (row_resource perm)\<rparr>"

text \<open>A \<^verbatim>\<open>MatchedPermissionWithScore\<close> returned as a \<^verbatim>\<open>MatchedPermission\<close>.\<close>

definition asMatchedPermission :: "MatchedPermissionWithScore \<Rightarrow> MatchedPermission" where
  "asMatchedPermission p =
     \<lparr>mp_action = sp_action p, mp_resource = sp_resource p, mp_effect = sp_effect p,
      mp_score = Some (sp_score p)\<rparr>"

text \<open>The prepared statement is the store: \<open>query userId action patterns\<close> stands for
  \<^verbatim>\<open>stmt.all(userId, action, ...patterns)\<close>, which returns rows or throws.\<close>

type_synonym store_query =
  "string \<Rightarrow> PermissionAction \<Rightarrow> string list \<Rightarrow> error + PermissionRow list"

text \<open>A row of the table \<^verbatim>\<open>user_permissions\<close>.\<close>

record UserPermission =
  up_id :: nat
  up_user_id :: string
  up_action :: PermissionAction
  up_resource :: string
  up_effect :: PermissionEffect

definition selectedColumns :: "UserPermission \<Rightarrow> PermissionRow" where
  "selectedColumns row =
     \<lparr>row_action = up_action row, row_resource = up_resource row, row_effect = up_effect row\<rparr>"

text \<open>The statement of \<^verbatim>\<open>findPermissionsWithWildcards\<close> run on a table. The
  \<^verbatim>\<open>WHERE\<close> clause keeps the rows of the user and the action whose resource is one of
  the patterns bound to the placeholders. \<^verbatim>\<open>ORDER BY\<close> rearranges the selected rows;
  the order among rows it does not distinguish is the engine's, so the rearrangement is
  the argument \<open>orderBy\<close>.\<close>

definition selectPermissions ::
  "(UserPermission list \<Rightarrow> UserPermission list) \<Rightarrow> UserPermission list \<Rightarrow> store_query" where
  "selectPermissions orderBy table userId action patterns =
     Inr (map selectedColumns
           (orderBy
             (filter (\<lambda>row. up_user_id row = userId \<and> up_action row = action \<and>
                             up_resource row \<in> set patterns)
                table)))"

definition findPermissionsWithWildcards ::
  "store_query \<Rightarrow> string \<Rightarrow> PermissionAction \<Rightarrow> string \<Rightarrow> error + MatchedPermission list" where
  "findPermissionsWithWildcards query userId action resource =
     (let patterns = generateResourcePatterns resource in
      case query userId action patterns of
        Inl e \<Rightarrow> Inl e
      | Inr results \<Rightarrow>
          (let matchedPermissions = map (withScore resource) results;
               matchedPermissions = array_sort comparePermissions matchedPermissions
           in Inr (map asMatchedPermission matchedPermissions)))"


section \<open>services/permissionService.ts\<close>

text \<open>\<^verbatim>\<open>s.includes(sub)\<close>.\<close>

fun js_startsWith :: "string \<Rightarrow> string \<Rightarrow> bool" where
  "js_startsWith s [] = True"
| "js_startsWith [] (y # ys) = False"
| "js_startsWith (x # xs) (y # ys) = (x = y \<and> js_startsWith xs ys)"

fun js_includes :: "string \<Rightarrow> string \<Rightarrow> bool" where
  "js_includes [] sub = (sub = [])"
| "js_includes (c # cs) sub = (js_startsWith (c # cs) sub \<or> js_includes cs sub)"

text \<open>Reading an index of an absent score throws a \<^verbatim>\<open>TypeError\<close>.\<close>

definition areScoresEqual ::
  "SpecificityScore option \<Rightarrow> SpecificityScore option \<Rightarrow> error + bool" where
  "areScoresEqual score1 score2 =
     (case score1 of
        None \<Rightarrow> Inl (TypeError ''Cannot read properties of undefined'')
      | Some (a0, a1, a2) \<Rightarrow>
          (case score2 of
             None \<Rightarrow> Inl (TypeError ''Cannot read properties of undefined'')
           | Some (b0, b1, b2) \<Rightarrow> Inr (a0 = b0 \<and> a1 = b1 \<and> a2 = b2)))"

definition generateAllowReason :: "MatchedPermission \<Rightarrow> PermissionAction \<Rightarrow> string \<Rightarrow> string" where
  "generateAllowReason permission action resource =
     (if mp_resource permission = resource
      then ''User has '' @ action_text action @ '' permission for '' @ resource
      else if mp_resource permission = ''*''
      then ''User has global '' @ action_text action @ '' permission''
      else if js_includes (mp_resource permission) ''*''
      then ''User has '' @ action_text action @ '' permission matching pattern '' @
           mp_resource permission
      else ''User has '' @ action_text action @ '' permission for '' @ mp_resource permission)"

definition generateDenyReason :: "MatchedPermission \<Rightarrow> PermissionAction \<Rightarrow> string \<Rightarrow> string" where
  "generateDenyReason permission action resource =
     (if mp_resource permission = resource
      then ''User is explicitly denied '' @ action_text action @ '' permission for '' @ resource
      else if mp_resource permission = ''*''
      then ''User is globally denied '' @ action_text action @ '' permission''
      else if js_includes (mp_resource permission) ''*''
      then ''User is denied '' @ action_text action @ '' permission by pattern '' @
           mp_resource permission
      else ''User is denied '' @ action_text action @ '' permission for '' @
           mp_resource permission)"

text \<open>\<^verbatim>\<open>permissions.filter(p => this.areScoresEqual(p.score!, topPermission.score!))\<close>;
  an exception in the callback ends the filter.\<close>

fun sameScorePermissions ::
  "SpecificityScore option \<Rightarrow> MatchedPermission list \<Rightarrow> error + MatchedPermission list" where
  "sameScorePermissions topScore [] = Inr []"
| "sameScorePermissions topScore (p # ps) =
     (case areScoresEqual (mp_score p) topScore of
        Inl e \<Rightarrow> Inl e
      | Inr same \<Rightarrow>
          (case sameScorePermissions topScore ps of
             Inl e \<Rightarrow> Inl e
           | Inr rest \<Rightarrow> Inr (if same then p # rest else rest)))"

text \<open>\<^verbatim>\<open>some(p => p.effect === 'deny')\<close> holds exactly when
  \<^verbatim>\<open>find(p => p.effect === 'deny')\<close> returns a record, the first such one.\<close>

definition resolvePermissions ::
  "MatchedPermission list \<Rightarrow> PermissionAction \<Rightarrow> string \<Rightarrow> error + PermissionCheckResult" where
  "resolvePermissions permissions action resource =
     (case permissions of
        [] \<Rightarrow>
          Inr \<lparr>allowed = False, matchedPermissions = [],
               reason = ''No permissions found for '' @ action_text action @ '' on '' @ resource\<rparr>
      | topPermission # _ \<Rightarrow>
          (case sameScorePermissions (mp_score topPermission) permissions of
             Inl e \<Rightarrow> Inl e
           | Inr sameScore \<Rightarrow>
               (case find (\<lambda>p. mp_effect p = Deny) sameScore of
                  Some denyPermission \<Rightarrow>
                    Inr \<lparr>allowed = False, matchedPermissions = [denyPermission],
                         reason = generateDenyReason denyPermission action resource\<rparr>
                | None \<Rightarrow>
                    Inr \<lparr>allowed = (mp_effect topPermission = Allow),
                         matchedPermissions = [topPermission],
                         reason =
                           (if mp_effect topPermission = Allow
                            then generateAllowReason topPermission action resource
                            else generateDenyReason topPermission action resource)\<rparr>)))"

type_synonym permission_repository =
  "string \<Rightarrow> PermissionAction \<Rightarrow> string \<Rightarrow> error + MatchedPermission list"

text \<open>The body of the \<^verbatim>\<open>try\<close> block of \<^verbatim>\<open>checkPermission\<close>; logging has no
  effect on the result.\<close>

definition checkPermission_try ::
  "permission_repository \<Rightarrow> string \<Rightarrow> PermissionAction \<Rightarrow> string \<Rightarrow> error + PermissionCheckResult" where
  "checkPermission_try repository userId action resource =
     (case repository userId action resource of
        Inl e \<Rightarrow> Inl e
      | Inr matched \<Rightarrow>
          if length matched = 0
          then Inr \<lparr>allowed = False, matchedPermissions = [],
                    reason = ''No permissions found for '' @ action_text action @ '' on '' @ resource\<rparr>
          else resolvePermissions matched action resource)"

text \<open>\<^verbatim>\<open>checkPermission\<close>: the \<^verbatim>\<open>catch\<close> clause denies on any exception.\<close>

definition checkPermission ::
  "permission_repository \<Rightarrow> string \<Rightarrow> PermissionAction \<Rightarrow> string \<Rightarrow> PermissionCheckResult" where
  "checkPermission repository userId action resource =
     (case checkPermission_try repository userId action resource of
        Inl e \<Rightarrow>
          \<lparr>allowed = False, matchedPermissions = [],
           reason = ''Permission check failed due to system error''\<rparr>
      | Inr result \<Rightarrow> result)"


section \<open>services/authorizationService.ts\<close>

text \<open>\<^verbatim>\<open>{action: p.action, resource: p.resource, effect: p.effect}\<close>.\<close>

definition responsePermission :: "MatchedPermission \<Rightarrow> MatchedPermission" where
  "responsePermission p =
     \<lparr>mp_action = mp_action p, mp_resource = mp_resource p, mp_effect = mp_effect p,
      mp_score = None\<rparr>"

definition denyUnknown :: "string \<Rightarrow> AuthorizeResponse" where
  "denyUnknown why =
     \<lparr>decision = DENY, user_id = ''unknown'', response_reason = why, matched_permissions = []\<rparr>"

type_synonym token_service = "string \<Rightarrow> error + ValidationResult"

text \<open>The body of the \<^verbatim>\<open>try\<close> block of \<^verbatim>\<open>authorize\<close>. Reading
  \<^verbatim>\<open>nickname\<close> of an absent \<^verbatim>\<open>userInfo\<close> throws; an absent or empty nickname
  is falsy, and so is an absent or empty \<^verbatim>\<open>error\<close> of the token result.\<close>

definition authorize_try ::
  "(string \<Rightarrow> string) \<Rightarrow> token_service \<Rightarrow> permission_repository \<Rightarrow> AuthorizeRequest \<Rightarrow>
   error + AuthorizeResponse" where
  "authorize_try toUpperCase validateToken repository request =
     (case validateToken (access_token request) of
        Inl e \<Rightarrow> Inl e
      | Inr tokenResult \<Rightarrow>
          if \<not> valid tokenResult \<or> payload tokenResult = None
          then Inr (denyUnknown
                 (case validation_error tokenResult of
                    None \<Rightarrow> ''Invalid token''
                  | Some msg \<Rightarrow> if msg = [] then ''Invalid token'' else msg))
          else
            (case userInfo tokenResult of
               None \<Rightarrow> Inl (TypeError ''Cannot read properties of undefined'')
             | Some info \<Rightarrow>
                 (case nickname info of
                    None \<Rightarrow> Inr (denyUnknown ''User not found'')
                  | Some userId \<Rightarrow>
                      if userId = [] then Inr (denyUnknown ''User not found'')
                      else
                        (case mapHttpMethodToAction toUpperCase (req_method request) of
                           Inl e \<Rightarrow> Inl e
                         | Inr action \<Rightarrow>
                             (let resource = mapPathToResource (req_path request);
                                  permissionResult =
                                    checkPermission repository userId action resource
                              in Inr \<lparr>decision = (if allowed permissionResult then ALLOW else DENY),
                                      user_id = userId,
                                      response_reason = reason permissionResult,
                                      matched_permissions =
                                        map responsePermission
                                          (matchedPermissions permissionResult)\<rparr>)))))"

definition authorize ::
  "(string \<Rightarrow> string) \<Rightarrow> token_service \<Rightarrow> permission_repository \<Rightarrow> AuthorizeRequest \<Rightarrow>
   AuthorizeResponse" where
  "authorize toUpperCase validateToken repository request =
     (case authorize_try toUpperCase validateToken repository request of
        Inl e \<Rightarrow> denyUnknown ''Authorization check failed due to system error''
      | Inr response \<Rightarrow> response)"


section \<open>Notions of the specification\<close>

text \<open>The three steps of \<^verbatim>\<open>mapResource\<close> in the words of the specification: strip
  leading slashes, cut at the first question mark, strip trailing slashes.\<close>

definition strip_leading_slashes :: "string \<Rightarrow> string" where
  "strip_leading_slashes s = dropWhile (\<lambda>c. c = CHR ''/'') s"

definition strip_query :: "string \<Rightarrow> string" where
  "strip_query s = takeWhile (\<lambda>c. c \<noteq> CHR ''?'') s"

definition strip_trailing_slashes :: "string \<Rightarrow> string" where
  "strip_trailing_slashes s = rev (dropWhile (\<lambda>c. c = CHR ''/'') (rev s))"

definition stripped_path :: "string \<Rightarrow> string" where
  "stripped_path p = strip_trailing_slashes (strip_query (strip_leading_slashes p))"

definition mapResource_spec :: "string \<Rightarrow> string" where
  "mapResource_spec p = (if stripped_path p = [] then ''*'' else stripped_path p)"

text \<open>What a call returns when it does not throw.\<close>

definition returned :: "error + 'a \<Rightarrow> 'a option" where
  "returned r = (case r of Inl e \<Rightarrow> None | Inr a \<Rightarrow> Some a)"

definition supported_methods :: "string set" where
  "supported_methods = {''GET'', ''POST'', ''PUT'', ''PATCH'', ''DELETE''}"

text \<open>The order of numbers, and the lexicographic order of score triples, left to right.\<close>

fun num_less :: "jsnum \<Rightarrow> jsnum \<Rightarrow> bool" where
  "num_less NegInfinity (Num b) = True"
| "num_less (Num a) (Num b) = (a < b)"
| "num_less x NegInfinity = False"

fun score_greater :: "SpecificityScore \<Rightarrow> SpecificityScore \<Rightarrow> bool" where
  "score_greater (a0, a1, a2) (b0, b1, b2) =
     (num_less b0 a0 \<or> (a0 = b0 \<and> (num_less b1 a1 \<or> (a1 = b1 \<and> num_less b2 a2))))"

text \<open>A pattern whose segments are each the wildcard token or text without an asterisk,
  and its numbers of wildcard and of literal segments.\<close>

definition pattern_shape :: "string \<Rightarrow> bool" where
  "pattern_shape P =
     list_all (\<lambda>seg. seg = ''*'' \<or> CHR ''*'' \<notin> set seg) (js_split (CHR ''/'') P)"

definition wildcard_segments :: "string \<Rightarrow> nat" where
  "wildcard_segments P = length (filter (\<lambda>seg. seg = ''*'') (js_split (CHR ''/'') P))"

definition literal_segments :: "string \<Rightarrow> nat" where
  "literal_segments P = length (filter (\<lambda>seg. seg \<noteq> ''*'') (js_split (CHR ''/'') P))"


text \<open>The first slash-delimited segment of a resource or pattern.\<close>

definition first_segment :: "string \<Rightarrow> string" where
  "first_segment s = hd (js_split (CHR ''/'') s)"

text \<open>The group of records tied with the first one: those whose score equals its score.
  The first deny record of a list. All scores present, as the repository returns them.\<close>

definition tiedGroup :: "MatchedPermission list \<Rightarrow> MatchedPermission list" where
  "tiedGroup permissions = filter (\<lambda>p. mp_score p = mp_score (hd permissions)) permissions"

definition scores_present :: "MatchedPermission list \<Rightarrow> bool" where
  "scores_present permissions = list_all (\<lambda>p. mp_score p \<noteq> None) permissions"

definition first_deny :: "MatchedPermission list \<Rightarrow> MatchedPermission option" where
  "first_deny permissions = find (\<lambda>p. mp_effect p = Deny) permissions"

text \<open>The fixed result of the \<^verbatim>\<open>catch\<close> clause of \<^verbatim>\<open>checkPermission\<close>.\<close>

definition systemError :: PermissionCheckResult where
  "systemError =
     \<lparr>allowed = False, matchedPermissions = [],
      reason = ''Permission check failed due to system error''\<rparr>"


section \<open>Scenarios\<close>

text \<open>The records of scenario 4 (as rows of the store) and of scenario 5 (scored), a token
  service that accepts every token for one user, two rows of a table, a store that throws
  and an empty store.\<close>

definition scenario4_deny :: PermissionRow where
  "scenario4_deny = \<lparr>row_action = Write, row_resource = ''wallets/*'', row_effect = Deny\<rparr>"

definition scenario4_allow :: PermissionRow where
  "scenario4_allow =
     \<lparr>row_action = Write, row_resource = ''wallets/wallet-123'', row_effect = Allow\<rparr>"

definition scenario5_allow :: MatchedPermission where
  "scenario5_allow =
     \<lparr>mp_action = Read, mp_resource = ''wallets/*'', mp_effect = Allow,
      mp_score = Some (Num 0, Num 1, Num (- 1))\<rparr>"

definition scenario5_deny :: MatchedPermission where
  "scenario5_deny =
     \<lparr>mp_action = Read, mp_resource = ''wallets/*'', mp_effect = Deny,
      mp_score = Some (Num 0, Num 1, Num (- 1))\<rparr>"

definition validToken :: "string \<Rightarrow> token_service" where
  "validToken name token =
     Inr \<lparr>valid = True, payload = Some [], userInfo = Some \<lparr>nickname = Some name\<rparr>,
          validation_error = None\<rparr>"

definition settingsAllow :: UserPermission where
  "settingsAllow =
     \<lparr>up_id = 1, up_user_id = ''u1'', up_action = Read, up_resource = ''admin/settings'',
      up_effect = Allow\<rparr>"

definition foreignDeny :: UserPermission where
  "foreignDeny =
     \<lparr>up_id = 2, up_user_id = ''u1'', up_action = Read, up_resource = ''*/settings'',
      up_effect = Deny\<rparr>"

definition failingStore :: store_query where
  "failingStore userId action patterns = Inl (Error ''SQLITE_BUSY: database is locked'')"

definition emptyStore :: store_query where
  "emptyStore userId action patterns = Inr []"


section \<open>Splitting and joining\<close>

lemma js_split_not_Nil: "js_split c s \<noteq> []"
  by (induction s) (auto split: list.splits)

lemma js_split_Cons:
  "js_split c (x # xs) =
     (if x = c then [] # js_split c xs
      else (x # hd (js_split c xs)) # tl (js_split c xs))"
  using js_split_not_Nil [of c xs] by (cases "js_split c xs") auto

lemma hd_js_split: "hd (js_split c s) = takeWhile (\<lambda>x. x \<noteq> c) s"
  by (induction s) (auto simp: js_split_Cons simp del: js_split.simps(2))

lemma js_split_no_sep: "seg \<in> set (js_split c s) \<Longrightarrow> c \<notin> set seg"
proof (induction s arbitrary: seg)
  case Nil
  then show ?case by simp
next
  case (Cons x xs)
  obtain y ys where sp: "js_split c xs = y # ys"
    using js_split_not_Nil [of c xs] by (cases "js_split c xs") auto
  show ?case
  proof (cases "x = c")
    case True
    with Cons sp show ?thesis by auto
  next
    case False
    with Cons.prems sp have "seg = x # y \<or> seg \<in> set ys" by simp
    then show ?thesis
      using Cons.IH [of y] Cons.IH [of seg] sp False by auto
  qed
qed

lemma count_asterisks_split:
  "c \<noteq> CHR ''*'' \<Longrightarrow> count_asterisks s = sum_list (map count_asterisks (js_split c s))"
proof (induction s)
  case Nil
  then show ?case by (simp add: count_asterisks_def)
next
  case (Cons x xs)
  obtain y ys where sp: "js_split c xs = y # ys"
    using js_split_not_Nil [of c xs] by (cases "js_split c xs") auto
  with Cons show ?case by (auto simp: count_asterisks_def)
qed

lemma js_join_Cons:
  "js_join sep (x # xs) = x @ (if xs = [] then [] else sep @ js_join sep xs)"
  by (cases xs) auto

lemma set_foldl_set_add: "set (foldl set_add xs ys) = set xs \<union> set ys"
  by (induction ys arbitrary: xs) (auto simp: set_add_def)

lemma set_set_add: "set (set_add xs y) = insert y (set xs)"
  by (auto simp: set_add_def)

lemma replace_leading_slashes_eq:
  "replace_leading_slashes s = dropWhile (\<lambda>c. c = CHR ''/'') s"
  by (induction s) auto

lemma replace_trailing_slashes_eq:
  "replace_trailing_slashes s = rev (dropWhile (\<lambda>c. c = CHR ''/'') (rev s))"
proof (induction s)
  case Nil
  then show ?case by simp
next
  case (Cons c cs)
  show ?case
  proof (cases "list_all (\<lambda>d. d = CHR ''/'') cs")
    case True
    then have "dropWhile (\<lambda>c. c = CHR ''/'') (rev cs) = []"
      by (simp add: list_all_iff)
    with True Cons show ?thesis by (auto simp: dropWhile_append list_all_iff)
  next
    case False
    then have "dropWhile (\<lambda>c. c = CHR ''/'') (rev cs) \<noteq> []"
      by (auto simp: list_all_iff)
    with False Cons show ?thesis by (auto simp: dropWhile_append)
  qed
qed


section \<open>The identifier normalizer\<close>

text \<open>
  Claim C7. Whatever \<^verbatim>\<open>toUpperCase\<close> computes, \<^verbatim>\<open>mapHttpMethodToAction\<close> looks at
  the upper-cased method only: GET gives read; POST, PUT and PATCH give write; DELETE gives
  delete; every other value throws an error whose message names the method as it was
  passed. It throws exactly when the upper-cased method is outside the five supported
  ones. It is case-insensitive: since \<^verbatim>\<open>toUpperCase\<close> acts on ASCII text as
  \<open>toUpperCase_ascii\<close>, two ASCII methods that differ in letter case only return the same
  action, or both throw.
\<close>

theorem mapHttpMethodToAction_total_on_supported:
  "(toUpperCase m = ''GET'' \<longrightarrow> mapHttpMethodToAction toUpperCase m = Inr Read) \<and>
   (toUpperCase m \<in> {''POST'', ''PUT'', ''PATCH''} \<longrightarrow>
      mapHttpMethodToAction toUpperCase m = Inr Write) \<and>
   (toUpperCase m = ''DELETE'' \<longrightarrow> mapHttpMethodToAction toUpperCase m = Inr Delete) \<and>
   (toUpperCase m \<notin> supported_methods \<longrightarrow>
      mapHttpMethodToAction toUpperCase m = Inl (Error (''Unsupported HTTP method: '' @ m))) \<and>
   (isl (mapHttpMethodToAction toUpperCase m) \<longleftrightarrow> toUpperCase m \<notin> supported_methods) \<and>
   ((\<forall>s. is_ascii s \<longrightarrow> toUpperCase s = toUpperCase_ascii s) \<and>
    is_ascii m \<and> is_ascii m' \<and> toUpperCase_ascii m = toUpperCase_ascii m' \<longrightarrow>
      returned (mapHttpMethodToAction toUpperCase m) =
      returned (mapHttpMethodToAction toUpperCase m'))"
proof -
  have cases:
    "(toUpperCase m = ''GET'' \<longrightarrow> mapHttpMethodToAction toUpperCase m = Inr Read) \<and>
     (toUpperCase m \<in> {''POST'', ''PUT'', ''PATCH''} \<longrightarrow>
        mapHttpMethodToAction toUpperCase m = Inr Write) \<and>
     (toUpperCase m = ''DELETE'' \<longrightarrow> mapHttpMethodToAction toUpperCase m = Inr Delete) \<and>
     (toUpperCase m \<notin> supported_methods \<longrightarrow>
        mapHttpMethodToAction toUpperCase m = Inl (Error (''Unsupported HTTP method: '' @ m))) \<and>
     (isl (mapHttpMethodToAction toUpperCase m) \<longleftrightarrow> toUpperCase m \<notin> supported_methods)"
    by (simp add: mapHttpMethodToAction_def supported_methods_def Let_def)
  have same: "returned (mapHttpMethodToAction toUpperCase m) =
        returned (mapHttpMethodToAction toUpperCase m')"
    if "toUpperCase m = toUpperCase m'"
    unfolding mapHttpMethodToAction_def Let_def that by (simp add: returned_def)
  have "returned (mapHttpMethodToAction toUpperCase m) =
        returned (mapHttpMethodToAction toUpperCase m')"
    if "\<forall>s. is_ascii s \<longrightarrow> toUpperCase s = toUpperCase_ascii s"
      and "is_ascii m" and "is_ascii m'" and "toUpperCase_ascii m = toUpperCase_ascii m'"
  proof -
    from that have "toUpperCase m = toUpperCase m'" by simp
    then show ?thesis by (rule same)
  qed
  with cases show ?thesis by blast
qed

lemma toUpperCase_ascii_examples:
  "toUpperCase_ascii ''get'' = ''GET''" "toUpperCase_ascii ''GeT'' = ''GET''"
  "toUpperCase_ascii ''Post'' = ''POST''" "toUpperCase_ascii ''POST'' = ''POST''"
  "toUpperCase_ascii ''pUT'' = ''PUT''" "toUpperCase_ascii ''PATCH'' = ''PATCH''"
  "toUpperCase_ascii ''delete'' = ''DELETE''" "toUpperCase_ascii ''options'' = ''OPTIONS''"
  by (simp_all add: toUpperCase_ascii_def toUpperCase_ascii_char_def lower_letters_def
      upper_letters_def)

lemma is_ascii_examples: "is_ascii ''get''" "is_ascii ''GeT''"
  by (simp_all add: is_ascii_def)

theorem mapHttpMethodToAction_total_on_supported_witness:
  "mapHttpMethodToAction toUpperCase_ascii ''get'' = Inr Read \<and>
   mapHttpMethodToAction toUpperCase_ascii ''Post'' = Inr Write \<and>
   mapHttpMethodToAction toUpperCase_ascii ''pUT'' = Inr Write \<and>
   mapHttpMethodToAction toUpperCase_ascii ''PATCH'' = Inr Write \<and>
   mapHttpMethodToAction toUpperCase_ascii ''delete'' = Inr Delete \<and>
   mapHttpMethodToAction toUpperCase_ascii ''options'' =
     Inl (Error ''Unsupported HTTP method: options'') \<and>
   isl (mapHttpMethodToAction toUpperCase_ascii ''options'') \<and>
   \<not> isl (mapHttpMethodToAction toUpperCase_ascii ''get'') \<and>
   is_ascii ''get'' \<and> is_ascii ''GeT'' \<and> toUpperCase_ascii ''get'' = toUpperCase_ascii ''GeT'' \<and>
   returned (mapHttpMethodToAction toUpperCase_ascii ''GeT'') = Some Read"
proof -
  note ex = toUpperCase_ascii_examples
  have get: "mapHttpMethodToAction toUpperCase_ascii ''get'' = Inr Read"
    and get_ok: "\<not> isl (mapHttpMethodToAction toUpperCase_ascii ''get'')"
    and insensitive: "returned (mapHttpMethodToAction toUpperCase_ascii ''get'') =
      returned (mapHttpMethodToAction toUpperCase_ascii ''GeT'')"
    using mapHttpMethodToAction_total_on_supported [of toUpperCase_ascii "''get''" "''GeT''"]
    by (auto simp add: ex is_ascii_examples supported_methods_def)
  have other: "returned (mapHttpMethodToAction toUpperCase_ascii ''GeT'') = Some Read"
    using insensitive [symmetric] unfolding get by (simp add: returned_def)
  have post: "mapHttpMethodToAction toUpperCase_ascii ''Post'' = Inr Write"
    using mapHttpMethodToAction_total_on_supported [of toUpperCase_ascii "''Post''" "''Post''"]
    by (simp add: ex)
  have put: "mapHttpMethodToAction toUpperCase_ascii ''pUT'' = Inr Write"
    using mapHttpMethodToAction_total_on_supported [of toUpperCase_ascii "''pUT''" "''pUT''"]
    by (simp add: ex)
  have patch: "mapHttpMethodToAction toUpperCase_ascii ''PATCH'' = Inr Write"
    using mapHttpMethodToAction_total_on_supported [of toUpperCase_ascii "''PATCH''" "''PATCH''"]
    by (simp add: ex)
  have delete: "mapHttpMethodToAction toUpperCase_ascii ''delete'' = Inr Delete"
    using mapHttpMethodToAction_total_on_supported [of toUpperCase_ascii "''delete''" "''delete''"]
    by (simp add: ex)
  have options: "mapHttpMethodToAction toUpperCase_ascii ''options'' =
      Inl (Error ''Unsupported HTTP method: options'')"
    and options_throws: "isl (mapHttpMethodToAction toUpperCase_ascii ''options'')"
    using mapHttpMethodToAction_total_on_supported [of toUpperCase_ascii "''options''" "''options''"]
    by (simp_all add: ex supported_methods_def)
  show ?thesis
    using get get_ok other post put patch delete options options_throws
    by (simp add: ex is_ascii_examples)
qed

lemma dropWhile_rev_suffix: "\<exists>suf. s = rev (dropWhile Q (rev s)) @ suf"
proof -
  have "rev s = takeWhile Q (rev s) @ dropWhile Q (rev s)" by simp
  then have "s = rev (dropWhile Q (rev s)) @ rev (takeWhile Q (rev s))"
    by (metis rev_append rev_rev_ident)
  then show ?thesis by blast
qed

lemma stripped_path_infix: "\<exists>pre suf. p = pre @ stripped_path p @ suf"
proof -
  let ?a = "strip_leading_slashes p"
  let ?b = "strip_query ?a"
  obtain pre where 1: "p = pre @ ?a"
    unfolding strip_leading_slashes_def by (metis takeWhile_dropWhile_id)
  obtain s1 where 2: "?a = ?b @ s1"
    unfolding strip_query_def by (metis takeWhile_dropWhile_id)
  obtain s2 where 3: "?b = stripped_path p @ s2"
    unfolding stripped_path_def strip_trailing_slashes_def
    using dropWhile_rev_suffix by blast
  have "p = pre @ stripped_path p @ (s2 @ s1)"
    using 1 2 3 by (metis append.assoc)
  then show ?thesis by blast
qed

lemma cleanPath_stripped:
  "replace_trailing_slashes (hd (js_split (CHR ''?'') (replace_leading_slashes p))) =
   stripped_path p"
  unfolding stripped_path_def strip_trailing_slashes_def strip_query_def
    strip_leading_slashes_def hd_js_split replace_leading_slashes_eq
    replace_trailing_slashes_eq ..

text \<open>
  Claim C8. \<^verbatim>\<open>mapPathToResource\<close> of a path is the path with its leading slashes
  stripped, then cut at the first question mark, then with its trailing slashes stripped;
  the empty result becomes the global identifier, and any other result is returned as it
  is: a contiguous piece of the path, with nothing rewritten inside it.
\<close>

theorem mapPathToResource_spec:
  "mapPathToResource p = mapResource_spec p \<and> (\<exists>pre suf. p = pre @ stripped_path p @ suf)"
proof
  show "mapPathToResource p = mapResource_spec p"
    unfolding mapPathToResource_def mapResource_spec_def Let_def cleanPath_stripped ..
  show "\<exists>pre suf. p = pre @ stripped_path p @ suf"
    by (rule stripped_path_infix)
qed


section \<open>The specificity scorer\<close>

lemma count_asterisks_segment:
  "seg = ''*'' \<or> CHR ''*'' \<notin> set seg \<Longrightarrow> count_asterisks seg = (if seg = ''*'' then 1 else 0)"
  by (auto simp: count_asterisks_def filter_empty_conv)

lemma sum_count_asterisks_shape:
  "list_all (\<lambda>seg. seg = ''*'' \<or> CHR ''*'' \<notin> set seg) segs \<Longrightarrow>
   sum_list (map count_asterisks segs) = length (filter (\<lambda>seg. seg = ''*'') segs)"
proof (induction segs)
  case Nil
  then show ?case by simp
next
  case (Cons s segs)
  then have "count_asterisks s = (if s = ''*'' then 1 else 0)"
    using count_asterisks_segment [of s] by simp
  with Cons show ?case by simp
qed

lemma count_asterisks_wildcard_segments:
  "pattern_shape P \<Longrightarrow> count_asterisks P = wildcard_segments P"
  unfolding pattern_shape_def wildcard_segments_def
  using count_asterisks_split [of "CHR ''/''" P] sum_count_asterisks_shape by simp

lemma segments_total:
  "length (js_split (CHR ''/'') P) = wildcard_segments P + literal_segments P"
  unfolding wildcard_segments_def literal_segments_def
  using sum_length_filter_compl [of "\<lambda>seg. seg = ''*''" "js_split (CHR ''/'') P"] by simp

lemma literal_segments_global: "literal_segments ''*'' = 0"
  by (simp add: literal_segments_def)

lemma specificity_component:
  assumes "pattern_shape P"
  shows "fst (snd (calculateSpecificityScore R P)) = Num (int (literal_segments P))"
proof (cases "P = ''*''")
  case True
  then show ?thesis by (simp add: calculateSpecificityScore_def literal_segments_global)
next
  case False
  then show ?thesis
    using count_asterisks_wildcard_segments [OF assms] segments_total [of P]
    by (simp add: calculateSpecificityScore_def Let_def)
qed

lemma shape_examples:
  "pattern_shape ''a/b/*''" "pattern_shape ''a/*''" "pattern_shape ''*''"
  "literal_segments ''a/b/*'' = 2" "literal_segments ''a/*'' = 1" "literal_segments ''*'' = 0"
  "wildcard_segments ''a/b/*'' = 1" "wildcard_segments ''a/*'' = 1" "wildcard_segments ''*'' = 1"
  by (simp_all add: pattern_shape_def literal_segments_def wildcard_segments_def)

text \<open>
  Claim C9. For every resource and any two patterns whose segments are each the wildcard
  token or text without an asterisk: if the first has strictly more literal segments than
  the second and no more wildcard segments, then the second component of its score is
  strictly greater. The global pattern, which is scored by a special case, is included.
\<close>

theorem specificity_monotone:
  assumes "pattern_shape P1" and "pattern_shape P2"
    and "literal_segments P2 < literal_segments P1"
    and "wildcard_segments P1 \<le> wildcard_segments P2"
  shows "num_less (fst (snd (calculateSpecificityScore R P2)))
                  (fst (snd (calculateSpecificityScore R P1)))"
  using assms by (simp add: specificity_component)

theorem specificity_monotone_witness:
  "pattern_shape ''a/b/*'' \<and> pattern_shape ''a/*'' \<and> pattern_shape ''*'' \<and>
   literal_segments ''a/*'' < literal_segments ''a/b/*'' \<and>
   wildcard_segments ''a/b/*'' \<le> wildcard_segments ''a/*'' \<and>
   literal_segments ''*'' < literal_segments ''a/b/*'' \<and>
   wildcard_segments ''a/b/*'' \<le> wildcard_segments ''*'' \<and>
   num_less (fst (snd (calculateSpecificityScore ''a/b/c'' ''a/*'')))
            (fst (snd (calculateSpecificityScore ''a/b/c'' ''a/b/*''))) \<and>
   num_less (fst (snd (calculateSpecificityScore ''a/b/c'' ''*'')))
            (fst (snd (calculateSpecificityScore ''a/b/c'' ''a/b/*'')))"
  using specificity_monotone [of "''a/b/*''" "''a/*''" "''a/b/c''"]
    specificity_monotone [of "''a/b/*''" "''*''" "''a/b/c''"]
  by (simp add: shape_examples)

lemma generateResourcePatterns_global: "generateResourcePatterns ''*'' = [''*'']"
  by (simp add: generateResourcePatterns_def parentWildcards_def set_add_def Let_def)

lemma generateResourcePatterns_example:
  "generateResourcePatterns ''a/b'' = [''a/b'', ''a/*'', ''*'']"
  by (simp add: generateResourcePatterns_def parentWildcards_def set_add_def slice_def Let_def)

text \<open>
  Claim C5. For every resource and every generated pattern other than the resource
  itself, the score of the exact match is strictly greater than the score of the pattern
  in the lexicographic order of the triples.
\<close>

theorem exact_match_dominates:
  assumes "P \<in> set (generateResourcePatterns R)" and "P \<noteq> R"
  shows "score_greater (calculateSpecificityScore R R) (calculateSpecificityScore R P)"
proof (cases "R = ''*''")
  case True
  with assms show ?thesis by (simp add: generateResourcePatterns_global)
next
  case False
  with assms(2) show ?thesis
    by (simp add: calculateSpecificityScore_def Let_def)
qed

theorem exact_match_dominates_witness:
  "''a/*'' \<in> set (generateResourcePatterns ''a/b'') \<and> ''a/*'' \<noteq> ''a/b'' \<and>
   ''*'' \<in> set (generateResourcePatterns ''a/b'') \<and> ''*'' \<noteq> ''a/b'' \<and>
   score_greater (calculateSpecificityScore ''a/b'' ''a/b'') (calculateSpecificityScore ''a/b'' ''a/*'') \<and>
   score_greater (calculateSpecificityScore ''a/b'' ''a/b'') (calculateSpecificityScore ''a/b'' ''*'')"
  using exact_match_dominates [of "''a/*''" "''a/b''"] exact_match_dominates [of "''*''" "''a/b''"]
  by (simp add: generateResourcePatterns_example)

section \<open>The decision resolver\<close>

lemma js_startsWith_iff: "js_startsWith s sub \<longleftrightarrow> (\<exists>suf. s = sub @ suf)"
  by (induction s sub rule: js_startsWith.induct) auto

lemma js_includes_iff: "js_includes s sub \<longleftrightarrow> (\<exists>pre suf. s = pre @ sub @ suf)"
proof (induction s)
  case Nil
  then show ?case by auto
next
  case (Cons c cs)
  have "(\<exists>pre suf. c # cs = pre @ sub @ suf) \<longleftrightarrow>
        (\<exists>suf. c # cs = sub @ suf) \<or> (\<exists>pre suf. cs = pre @ sub @ suf)"
  proof
    assume "\<exists>pre suf. c # cs = pre @ sub @ suf"
    then obtain pre suf where eq: "c # cs = pre @ sub @ suf" by blast
    show "(\<exists>suf. c # cs = sub @ suf) \<or> (\<exists>pre suf. cs = pre @ sub @ suf)"
    proof (cases pre)
      case Nil
      with eq show ?thesis by auto
    next
      case (Cons a pre')
      with eq have "cs = pre' @ sub @ suf" by simp
      then show ?thesis by blast
    qed
  next
    assume "(\<exists>suf. c # cs = sub @ suf) \<or> (\<exists>pre suf. cs = pre @ sub @ suf)"
    then show "\<exists>pre suf. c # cs = pre @ sub @ suf"
    proof
      assume "\<exists>suf. c # cs = sub @ suf"
      then obtain suf where "c # cs = [] @ sub @ suf" by auto
      then show ?thesis by blast
    next
      assume "\<exists>pre suf. cs = pre @ sub @ suf"
      then obtain pre suf where "c # cs = (c # pre) @ sub @ suf" by auto
      then show ?thesis by blast
    qed
  qed
  with Cons show ?case by (simp add: js_startsWith_iff)
qed

lemma areScoresEqual_present:
  "areScoresEqual (Some s) (Some t) = Inr (s = t)"
  by (cases s, cases t) (auto simp: areScoresEqual_def)

lemma sameScorePermissions_present:
  "list_all (\<lambda>p. mp_score p \<noteq> None) ps \<Longrightarrow>
   sameScorePermissions (Some t) ps = Inr (filter (\<lambda>p. mp_score p = Some t) ps)"
proof (induction ps)
  case Nil
  then show ?case by simp
next
  case (Cons p ps)
  then obtain s where "mp_score p = Some s" by auto
  with Cons show ?case by (simp add: areScoresEqual_present)
qed

lemma sameScorePermissions_tiedGroup:
  assumes "permissions \<noteq> []" and "scores_present permissions"
  shows "sameScorePermissions (mp_score (hd permissions)) permissions = Inr (tiedGroup permissions)"
proof -
  from assms obtain t where t: "mp_score (hd permissions) = Some t"
    by (cases permissions) (auto simp: scores_present_def)
  show ?thesis
    unfolding t tiedGroup_def
    using assms(2) sameScorePermissions_present by (simp add: scores_present_def)
qed

lemma find_deny_exists:
  "(\<exists>p \<in> set ps. mp_effect p = Deny) \<Longrightarrow> \<exists>d. find (\<lambda>p. mp_effect p = Deny) ps = Some d"
  by (induction ps) auto

lemma post_is_write:
  "toUpperCase ''POST'' = ''POST'' \<Longrightarrow> mapHttpMethodToAction toUpperCase ''POST'' = Inr Write"
  by (simp add: mapHttpMethodToAction_def)

lemma toUpperCase_ascii_POST: "toUpperCase_ascii ''POST'' = ''POST''"
  by (simp add: toUpperCase_ascii_def toUpperCase_ascii_char_def lower_letters_def
      upper_letters_def)

lemma path_example: "mapPathToResource ''/wallets/wallet-123'' = ''wallets/wallet-123''"
  by (simp add: mapPathToResource_def)

lemma failingStore_throws:
  "findPermissionsWithWildcards failingStore userId action resource =
   Inl (Error ''SQLITE_BUSY: database is locked'')"
  by (simp add: findPermissionsWithWildcards_def failingStore_def Let_def)

lemma emptyStore_no_candidates:
  "findPermissionsWithWildcards emptyStore userId action resource = Inr []"
  by (simp add: findPermissionsWithWildcards_def emptyStore_def Let_def array_sort_def)

lemma scenario5_tied:
  "tiedGroup [scenario5_allow, scenario5_deny] = [scenario5_allow, scenario5_deny]"
  "tiedGroup [scenario5_deny, scenario5_allow] = [scenario5_deny, scenario5_allow]"
  "scores_present [scenario5_allow, scenario5_deny]"
  "scores_present [scenario5_deny, scenario5_allow]"
  "mp_effect scenario5_deny = Deny" "mp_effect scenario5_allow = Allow"
  by (simp_all add: tiedGroup_def scores_present_def scenario5_allow_def scenario5_deny_def)

text \<open>
  Claim C3. For every non-empty candidate list with its scores present: if the group of
  records tied with the first one contains a deny record, \<^verbatim>\<open>resolvePermissions\<close> returns
  a denial whose matched permissions are the single first deny record of that group. In
  particular an allow and a deny record of equal score resolve to a denial.
\<close>

theorem deny_wins_tie:
  assumes "permissions \<noteq> []" and "scores_present permissions"
    and "\<exists>p \<in> set (tiedGroup permissions). mp_effect p = Deny"
  shows "\<exists>d. first_deny (tiedGroup permissions) = Some d \<and>
             resolvePermissions permissions action resource =
               Inr \<lparr>allowed = False, matchedPermissions = [d],
                    reason = generateDenyReason d action resource\<rparr>"
proof -
  from assms(3) obtain d where d: "first_deny (tiedGroup permissions) = Some d"
    unfolding first_deny_def using find_deny_exists by blast
  from assms(1) obtain top rest where perms: "permissions = top # rest"
    by (cases permissions) auto
  have same: "sameScorePermissions (mp_score top) permissions = Inr (tiedGroup permissions)"
    using sameScorePermissions_tiedGroup [OF assms(1,2)] perms by simp
  have "resolvePermissions permissions action resource =
          Inr \<lparr>allowed = False, matchedPermissions = [d],
               reason = generateDenyReason d action resource\<rparr>"
    using d same unfolding resolvePermissions_def first_deny_def perms by simp
  with d show ?thesis by blast
qed

theorem deny_wins_tie_witness:
  "first_deny (tiedGroup [scenario5_allow, scenario5_deny]) = Some scenario5_deny \<and>
   resolvePermissions [scenario5_allow, scenario5_deny] Read ''wallets/wallet-123'' =
     Inr \<lparr>allowed = False, matchedPermissions = [scenario5_deny],
          reason = generateDenyReason scenario5_deny Read ''wallets/wallet-123''\<rparr> \<and>
   resolvePermissions [scenario5_deny, scenario5_allow] Read ''wallets/wallet-123'' =
     Inr \<lparr>allowed = False, matchedPermissions = [scenario5_deny],
          reason = generateDenyReason scenario5_deny Read ''wallets/wallet-123''\<rparr>"
  using deny_wins_tie [of "[scenario5_allow, scenario5_deny]" Read "''wallets/wallet-123''"]
    deny_wins_tie [of "[scenario5_deny, scenario5_allow]" Read "''wallets/wallet-123''"]
  by (simp add: scenario5_tied first_deny_def)

lemma scenario4_scores:
  "withScore ''wallets/wallet-123'' scenario4_deny =
     \<lparr>sp_action = Write, sp_resource = ''wallets/*'', sp_effect = Deny,
      sp_score = (Num 0, Num 1, Num (- 1))\<rparr>"
  "withScore ''wallets/wallet-123'' scenario4_allow =
     \<lparr>sp_action = Write, sp_resource = ''wallets/wallet-123'', sp_effect = Allow,
      sp_score = (Num 1, Num 2, Num 0)\<rparr>"
  by (simp_all add: withScore_def scenario4_deny_def scenario4_allow_def
      calculateSpecificityScore_def count_asterisks_def Let_def)

lemma scenario4_sorted:
  "findPermissionsWithWildcards (\<lambda>userId action patterns. Inr [scenario4_allow, scenario4_deny])
     u Write ''wallets/wallet-123'' =
   Inr [asMatchedPermission (withScore ''wallets/wallet-123'' scenario4_deny),
        asMatchedPermission (withScore ''wallets/wallet-123'' scenario4_allow)]"
  "findPermissionsWithWildcards (\<lambda>userId action patterns. Inr [scenario4_deny, scenario4_allow])
     u Write ''wallets/wallet-123'' =
   Inr [asMatchedPermission (withScore ''wallets/wallet-123'' scenario4_deny),
        asMatchedPermission (withScore ''wallets/wallet-123'' scenario4_allow)]"
  by (simp_all add: findPermissionsWithWildcards_def Let_def array_sort_def scenario4_scores
      comparePermissions_def)

lemma scenario4_resolved:
  "resolvePermissions
     [asMatchedPermission (withScore ''wallets/wallet-123'' scenario4_deny),
      asMatchedPermission (withScore ''wallets/wallet-123'' scenario4_allow)]
     Write ''wallets/wallet-123'' =
   Inr \<lparr>allowed = False,
        matchedPermissions = [asMatchedPermission (withScore ''wallets/wallet-123'' scenario4_deny)],
        reason = ''User is denied write permission by pattern wallets/*''\<rparr>"
  by (simp add: resolvePermissions_def scenario4_scores asMatchedPermission_def
      areScoresEqual_def generateDenyReason_def)

text \<open>
  Claim C2. With exactly the two write records of scenario 4 as candidates, in either
  order of the rows, the repository returns the deny record on \<^verbatim>\<open>wallets/*\<close> in front of
  the exact allow record, and the resolution of that list is a denial whose matched
  permissions are the single deny record; so is the response of \<^verbatim>\<open>authorize\<close> to a
  POST request, whatever \<^verbatim>\<open>toUpperCase\<close> does to other strings.
\<close>

theorem less_specific_deny_defeats_allow:
  "findPermissionsWithWildcards (\<lambda>userId action patterns. Inr [scenario4_allow, scenario4_deny])
     u Write ''wallets/wallet-123'' =
   Inr [asMatchedPermission (withScore ''wallets/wallet-123'' scenario4_deny),
        asMatchedPermission (withScore ''wallets/wallet-123'' scenario4_allow)] \<and>
   findPermissionsWithWildcards (\<lambda>userId action patterns. Inr [scenario4_deny, scenario4_allow])
     u Write ''wallets/wallet-123'' =
   Inr [asMatchedPermission (withScore ''wallets/wallet-123'' scenario4_deny),
        asMatchedPermission (withScore ''wallets/wallet-123'' scenario4_allow)] \<and>
   resolvePermissions
     [asMatchedPermission (withScore ''wallets/wallet-123'' scenario4_deny),
      asMatchedPermission (withScore ''wallets/wallet-123'' scenario4_allow)]
     Write ''wallets/wallet-123'' =
   Inr \<lparr>allowed = False,
        matchedPermissions = [asMatchedPermission (withScore ''wallets/wallet-123'' scenario4_deny)],
        reason = ''User is denied write permission by pattern wallets/*''\<rparr> \<and>
   (\<forall>toUpperCase. toUpperCase ''POST'' = ''POST'' \<longrightarrow>
      authorize toUpperCase (validToken ''u1'')
        (findPermissionsWithWildcards
           (\<lambda>userId action patterns. Inr [scenario4_allow, scenario4_deny]))
        \<lparr>access_token = ''t'', req_method = ''POST'', req_path = ''/wallets/wallet-123''\<rparr> =
      \<lparr>decision = DENY, user_id = ''u1'',
       response_reason = ''User is denied write permission by pattern wallets/*'',
       matched_permissions =
         [\<lparr>mp_action = Write, mp_resource = ''wallets/*'', mp_effect = Deny, mp_score = None\<rparr>]\<rparr>)"
proof -
  have "checkPermission
          (findPermissionsWithWildcards (\<lambda>userId action patterns. Inr [scenario4_allow, scenario4_deny]))
          ''u1'' Write ''wallets/wallet-123'' =
        \<lparr>allowed = False,
         matchedPermissions = [asMatchedPermission (withScore ''wallets/wallet-123'' scenario4_deny)],
         reason = ''User is denied write permission by pattern wallets/*''\<rparr>"
    by (simp add: checkPermission_def checkPermission_try_def scenario4_sorted scenario4_resolved)
  then have "authorize toUpperCase (validToken ''u1'')
     (findPermissionsWithWildcards (\<lambda>userId action patterns. Inr [scenario4_allow, scenario4_deny]))
     \<lparr>access_token = ''t'', req_method = ''POST'', req_path = ''/wallets/wallet-123''\<rparr> =
   \<lparr>decision = DENY, user_id = ''u1'',
    response_reason = ''User is denied write permission by pattern wallets/*'',
    matched_permissions =
      [\<lparr>mp_action = Write, mp_resource = ''wallets/*'', mp_effect = Deny, mp_score = None\<rparr>]\<rparr>"
    if "toUpperCase ''POST'' = ''POST''" for toUpperCase
    by (simp add: authorize_def authorize_try_def validToken_def Let_def post_is_write [of toUpperCase, OF that]
        path_example responsePermission_def asMatchedPermission_def scenario4_scores)
  then show ?thesis
    using scenario4_sorted [of u] scenario4_resolved by simp
qed

theorem less_specific_deny_defeats_allow_witness:
  "toUpperCase_ascii ''POST'' = ''POST'' \<and>
   authorize toUpperCase_ascii (validToken ''u1'')
     (findPermissionsWithWildcards (\<lambda>userId action patterns. Inr [scenario4_allow, scenario4_deny]))
     \<lparr>access_token = ''t'', req_method = ''POST'', req_path = ''/wallets/wallet-123''\<rparr> =
   \<lparr>decision = DENY, user_id = ''u1'',
    response_reason = ''User is denied write permission by pattern wallets/*'',
    matched_permissions =
      [\<lparr>mp_action = Write, mp_resource = ''wallets/*'', mp_effect = Deny, mp_score = None\<rparr>]\<rparr>"
  using less_specific_deny_defeats_allow [of "''u1''"] toUpperCase_ascii_POST by blast



section \<open>Failure and default denial\<close>

text \<open>
  Claim C1. If the repository call inside \<^verbatim>\<open>checkPermission\<close> throws, whatever the
  error, \<^verbatim>\<open>checkPermission\<close> returns the fixed result: not allowed, no matched
  permissions, a reason that contains "system error" and nothing of the error. The
  response that \<^verbatim>\<open>authorize\<close> then builds for the resolved user keeps that user's
  identity.
\<close>

theorem store_failure_denies:
  assumes "repository u a r = Inl e"
  shows "checkPermission repository u a r = systemError \<and>
         js_includes (reason systemError) ''system error'' \<and>
         (\<forall>toUpperCase validateToken request tokenResult pl info.
            validateToken (access_token request) = Inr tokenResult \<and>
            valid tokenResult \<and> payload tokenResult = Some pl \<and>
            userInfo tokenResult = Some info \<and> nickname info = Some u \<and> u \<noteq> [] \<and>
            mapHttpMethodToAction toUpperCase (req_method request) = Inr a \<and>
            mapPathToResource (req_path request) = r
            \<longrightarrow> authorize toUpperCase validateToken repository request =
                  \<lparr>decision = DENY, user_id = u, response_reason = reason systemError,
                   matched_permissions = []\<rparr>)"
proof -
  have cp: "checkPermission repository u a r = systemError"
    using assms by (simp add: checkPermission_def checkPermission_try_def systemError_def)
  have inc: "js_includes (reason systemError) ''system error''"
    by (simp add: systemError_def)
  have "authorize toUpperCase validateToken repository request =
          \<lparr>decision = DENY, user_id = u, response_reason = reason systemError,
           matched_permissions = []\<rparr>"
    if "validateToken (access_token request) = Inr tokenResult"
      and "valid tokenResult" and "payload tokenResult = Some pl"
      and "userInfo tokenResult = Some info" and "nickname info = Some u" and "u \<noteq> []"
      and "mapHttpMethodToAction toUpperCase (req_method request) = Inr a"
      and "mapPathToResource (req_path request) = r"
    for toUpperCase validateToken request tokenResult pl info
    using that cp by (simp add: authorize_def authorize_try_def Let_def systemError_def)
  with cp inc show ?thesis by blast
qed

theorem store_failure_denies_witness:
  "findPermissionsWithWildcards failingStore ''u1'' Write ''wallets/wallet-123'' =
     Inl (Error ''SQLITE_BUSY: database is locked'') \<and>
   checkPermission (findPermissionsWithWildcards failingStore) ''u1'' Write ''wallets/wallet-123'' =
     systemError \<and>
   authorize toUpperCase_ascii (validToken ''u1'') (findPermissionsWithWildcards failingStore)
     \<lparr>access_token = ''t'', req_method = ''POST'', req_path = ''/wallets/wallet-123''\<rparr> =
   \<lparr>decision = DENY, user_id = ''u1'',
    response_reason = ''Permission check failed due to system error'',
    matched_permissions = []\<rparr>"
proof -
  have thrown: "findPermissionsWithWildcards failingStore ''u1'' Write ''wallets/wallet-123'' =
      Inl (Error ''SQLITE_BUSY: database is locked'')"
    by (rule failingStore_throws)
  note fact = store_failure_denies [of "findPermissionsWithWildcards failingStore" "''u1''" Write
      "''wallets/wallet-123''" "Error ''SQLITE_BUSY: database is locked''", OF thrown]
  from fact have cp: "checkPermission (findPermissionsWithWildcards failingStore)
      ''u1'' Write ''wallets/wallet-123'' = systemError"
    by blast
  from fact have "authorize toUpperCase_ascii (validToken ''u1'')
     (findPermissionsWithWildcards failingStore)
     \<lparr>access_token = ''t'', req_method = ''POST'', req_path = ''/wallets/wallet-123''\<rparr> =
     \<lparr>decision = DENY, user_id = ''u1'', response_reason = reason systemError,
      matched_permissions = []\<rparr>"
    by (simp add: validToken_def post_is_write [of toUpperCase_ascii, OF toUpperCase_ascii_POST] path_example)
  with thrown cp show ?thesis by (simp add: systemError_def)
qed

text \<open>
  Claim C4, amended. If the repository returns no candidate, \<^verbatim>\<open>checkPermission\<close>
  returns: not allowed, no matched permissions, and the reason
  "No permissions found for {action} on {resource}", with a capital N.
\<close>

theorem no_candidates_denies:
  assumes "repository userId action resource = Inr []"
  shows "checkPermission repository userId action resource =
           \<lparr>allowed = False, matchedPermissions = [],
            reason = ''No permissions found for '' @ action_text action @ '' on '' @ resource\<rparr>"
  using assms by (simp add: checkPermission_def checkPermission_try_def)

theorem no_candidates_denies_witness:
  "findPermissionsWithWildcards emptyStore ''u1'' Write ''admin/settings'' = Inr [] \<and>
   checkPermission (findPermissionsWithWildcards emptyStore) ''u1'' Write ''admin/settings'' =
     \<lparr>allowed = False, matchedPermissions = [],
      reason = ''No permissions found for write on admin/settings''\<rparr>"
  using no_candidates_denies [of "findPermissionsWithWildcards emptyStore" "''u1''" Write
      "''admin/settings''"]
  by (simp add: emptyStore_no_candidates)

text \<open>
  Claim C4 as stated fails: the reason does not contain the text "no permissions found",
  and is not "no permissions found for write on admin/settings".
\<close>

theorem no_candidates_reason_counterexample:
  "\<not> js_includes (reason (checkPermission (\<lambda>userId action resource. Inr []) ''u1'' Write ''admin/settings''))
       ''no permissions found'' \<and>
   reason (checkPermission (\<lambda>userId action resource. Inr []) ''u1'' Write ''admin/settings'') \<noteq>
     ''no permissions found for write on admin/settings''"
  by (simp add: checkPermission_def checkPermission_try_def)

section \<open>The pattern generator\<close>

lemma first_segment_takeWhile: "first_segment s = takeWhile (\<lambda>c. c \<noteq> CHR ''/'') s"
  by (simp add: first_segment_def hd_js_split)

lemma first_segment_append:
  "CHR ''/'' \<notin> set x \<Longrightarrow> first_segment (x @ CHR ''/'' # rest) = x"
  by (induction x) (auto simp: first_segment_takeWhile)

lemma first_segment_plain: "CHR ''/'' \<notin> set x \<Longrightarrow> first_segment x = x"
  by (induction x) (auto simp: first_segment_takeWhile)

lemma first_segment_join:
  assumes "CHR ''/'' \<notin> set x"
  shows "first_segment (js_join ''/'' (x # xs)) = x"
    and "first_segment (js_join ''/'' (x # xs) @ ''/*'') = x"
  using assms by (cases xs; simp add: first_segment_append first_segment_plain)+

lemma segments_first:
  obtains rest where "js_split (CHR ''/'') R = first_segment R # rest"
  using js_split_not_Nil [of "CHR ''/''" R]
  by (cases "js_split (CHR ''/'') R") (auto simp: first_segment_def)

lemma first_segment_no_slash: "CHR ''/'' \<notin> set (first_segment R)"
  using js_split_no_sep [of "first_segment R" "CHR ''/''" R] js_split_not_Nil [of "CHR ''/''" R]
  by (simp add: first_segment_def)

lemma slice_0_Cons: "0 < i \<Longrightarrow> slice 0 i (s # ss) = s # take (i - 1) ss"
  by (cases i) (simp_all add: slice_def)

lemma wildcardAt_Cons:
  "0 < i \<Longrightarrow> \<exists>ys. wildcardAt i (s # ss) = s # ys"
  by (simp add: wildcardAt_def upt_conv_Cons del: upt_Suc)

lemma wildcardAt2_Cons:
  "0 < i \<Longrightarrow> 0 < j \<Longrightarrow> \<exists>ys. wildcardAt2 i j (s # ss) = s # ys"
  by (simp add: wildcardAt2_def upt_conv_Cons del: upt_Suc)

lemma in_map_upt: "P \<in> set (map f [a..<b]) \<Longrightarrow> \<exists>i. a \<le> i \<and> i < b \<and> P = f i"
  by auto

lemma in_concat_map_upt:
  "P \<in> set (concat (map (\<lambda>i. map (f i) [g i..<m]) [a..<b])) \<Longrightarrow>
   \<exists>i j. a \<le> i \<and> i < b \<and> g i \<le> j \<and> j < m \<and> P = f i j"
  by fastforce

lemma first_segment_joined:
  assumes "CHR ''/'' \<notin> set s" and "segs = s # ys"
  shows "first_segment (js_join ''/'' segs) = s"
    and "first_segment (js_join ''/'' segs @ ''/*'') = s"
  unfolding assms(2) by (rule first_segment_join [OF assms(1)])+

lemma parentWildcards_first:
  assumes "P \<in> set (parentWildcards (s # ss))" and "CHR ''/'' \<notin> set s"
  shows "first_segment P = s"
proof -
  from assms(1) have "P \<in> set (map (\<lambda>i. js_join ''/'' (slice 0 i (s # ss)) @ ''/*'')
                               [1..<length (s # ss)])"
    unfolding parentWildcards_def set_map set_rev .
  from in_map_upt [OF this] obtain i
    where i: "1 \<le> i" "P = js_join ''/'' (slice 0 i (s # ss)) @ ''/*''"
    by blast
  from i(1) have "slice 0 i (s # ss) = s # take (i - 1) ss"
    by (simp add: slice_0_Cons)
  from first_segment_joined(2) [OF assms(2) this] show ?thesis
    unfolding i(2) .
qed

lemma middle_first:
  assumes "CHR ''/'' \<notin> set s"
  shows "first_segment (hd (s # ss) @ ''/*/'' @ last (s # ss)) = s"
  using assms first_segment_append [of s] by simp

lemma single_wildcard_first:
  assumes "P \<in> set (map (\<lambda>i. js_join ''/'' (wildcardAt i (s # ss))) [1..<n])"
    and "CHR ''/'' \<notin> set s"
  shows "first_segment P = s"
proof -
  from in_map_upt [OF assms(1)] obtain i
    where i: "1 \<le> i" "P = js_join ''/'' (wildcardAt i (s # ss))"
    by blast
  from i(1) obtain ys where "wildcardAt i (s # ss) = s # ys"
    using wildcardAt_Cons [of i s ss] by auto
  from first_segment_joined(1) [OF assms(2) this] show ?thesis
    unfolding i(2) .
qed

lemma trailing_pair_first:
  assumes "P \<in> set (map (\<lambda>i. js_join ''/''
              (slice 0 i (s # ss) @ [''*''] @ slice (i + 1) m (s # ss) @ [''*''])) [1..<n])"
    and "CHR ''/'' \<notin> set s"
  shows "first_segment P = s"
proof -
  from in_map_upt [OF assms(1)] obtain i
    where i: "1 \<le> i"
      "P = js_join ''/'' (slice 0 i (s # ss) @ [''*''] @ slice (i + 1) m (s # ss) @ [''*''])"
    by blast
  from i(1) have "slice 0 i (s # ss) = s # take (i - 1) ss"
    by (simp add: slice_0_Cons)
  then have "slice 0 i (s # ss) @ [''*''] @ slice (i + 1) m (s # ss) @ [''*''] =
      s # (take (i - 1) ss @ [''*''] @ slice (i + 1) m (s # ss) @ [''*''])"
    by simp
  from first_segment_joined(1) [OF assms(2) this] show ?thesis
    unfolding i(2) .
qed

lemma wildcard_pair_first:
  assumes "P \<in> set (concat (map (\<lambda>i. map (\<lambda>j. js_join ''/'' (wildcardAt2 i j (s # ss))) [i + 2..<m])
              [1..<n]))"
    and "CHR ''/'' \<notin> set s"
  shows "first_segment P = s"
proof -
  from in_concat_map_upt [OF assms(1)] obtain i j
    where ij: "1 \<le> i" "i + 2 \<le> j" "P = js_join ''/'' (wildcardAt2 i j (s # ss))"
    by blast
  then obtain ys where "wildcardAt2 i j (s # ss) = s # ys"
    using wildcardAt2_Cons [of i j s ss] by auto
  from first_segment_joined(1) [OF assms(2) this] show ?thesis
    unfolding ij(3) .
qed

lemma set_generateResourcePatterns:
  "set (generateResourcePatterns R) =
     (let segments = js_split (CHR ''/'') R; n = length segments in
      {R} \<union> set (parentWildcards segments) \<union>
      (if 3 \<le> n then {hd segments @ ''/*/'' @ last segments} else {}) \<union>
      (if 3 < n then set (map (\<lambda>i. js_join ''/'' (wildcardAt i segments)) [1..<n - 1]) else {}) \<union>
      (if 4 \<le> n
       then set (map (\<lambda>i. js_join ''/''
                  (slice 0 i segments @ [''*''] @ slice (i + 1) (n - 1) segments @ [''*'']))
                [1..<n - 2])
       else {}) \<union>
      {''*''})"
  unfolding generateResourcePatterns_def Let_def
  by (simp add: set_foldl_set_add set_set_add Un_ac insert_commute del: upt_Suc)

lemma set_generateResourcePatterns_part_000:
  "set (generateResourcePatterns_part_000 R) =
     (let segments = js_split (CHR ''/'') R; n = length segments in
      {R} \<union> set (parentWildcards segments) \<union>
      (if 3 \<le> n then set (map (\<lambda>i. js_join ''/'' (wildcardAt i segments)) [1..<n - 1]) else {}) \<union>
      (if 4 \<le> n
       then set (concat (map (\<lambda>i. map (\<lambda>j. js_join ''/'' (wildcardAt2 i j segments)) [i + 2..<n])
                  [1..<n - 2]))
       else {}) \<union>
      {''*''})"
  unfolding generateResourcePatterns_part_000_def Let_def
  by (simp add: set_foldl_set_add set_set_add Un_ac insert_commute del: upt_Suc)

lemma generateResourcePatterns_first:
  assumes "P \<in> set (generateResourcePatterns R)" and "P \<noteq> ''*''"
  shows "first_segment P = first_segment R"
proof -
  obtain ss where segs: "js_split (CHR ''/'') R = first_segment R # ss"
    by (rule segments_first)
  note ns = first_segment_no_slash [of R]
  let ?segs = "first_segment R # ss"
  from assms have "P = R \<or> P \<in> set (parentWildcards ?segs) \<or>
      P = hd ?segs @ ''/*/'' @ last ?segs \<or>
      P \<in> set (map (\<lambda>i. js_join ''/'' (wildcardAt i ?segs)) [1..<length ?segs - 1]) \<or>
      P \<in> set (map (\<lambda>i. js_join ''/''
              (slice 0 i ?segs @ [''*''] @ slice (i + 1) (length ?segs - 1) ?segs @ [''*'']))
            [1..<length ?segs - 2])"
    unfolding set_generateResourcePatterns Let_def segs
    by (auto split: if_splits simp del: upt_Suc set_map set_upt)
  then show ?thesis
    using parentWildcards_first [OF _ ns] middle_first [OF ns] single_wildcard_first [OF _ ns]
      trailing_pair_first [OF _ ns]
    by blast
qed

lemma generateResourcePatterns_part_000_first:
  assumes "P \<in> set (generateResourcePatterns_part_000 R)" and "P \<noteq> ''*''"
  shows "first_segment P = first_segment R"
proof -
  obtain ss where segs: "js_split (CHR ''/'') R = first_segment R # ss"
    by (rule segments_first)
  note ns = first_segment_no_slash [of R]
  let ?segs = "first_segment R # ss"
  from assms have "P = R \<or> P \<in> set (parentWildcards ?segs) \<or>
      P \<in> set (map (\<lambda>i. js_join ''/'' (wildcardAt i ?segs)) [1..<length ?segs - 1]) \<or>
      P \<in> set (concat (map (\<lambda>i. map (\<lambda>j. js_join ''/'' (wildcardAt2 i j ?segs))
                                    [i + 2..<length ?segs])
                         [1..<length ?segs - 2]))"
    unfolding set_generateResourcePatterns_part_000 Let_def segs
    by (auto split: if_splits simp del: upt_Suc set_map set_upt set_concat)
  then show ?thesis
    using parentWildcards_first [OF _ ns] single_wildcard_first [OF _ ns]
      wildcard_pair_first [OF _ ns]
    by blast
qed

lemma patterns_abcd:
  "generateResourcePatterns ''a/b/c/d'' =
     [''a/b/c/d'', ''a/b/c/*'', ''a/b/*'', ''a/*'', ''a/*/d'', ''a/*/c/d'', ''a/b/*/d'',
      ''a/*/c/*'', ''*'']"
  by code_simp

lemma patterns_part_000_abcd:
  "generateResourcePatterns_part_000 ''a/b/c/d'' =
     [''a/b/c/d'', ''a/b/c/*'', ''a/b/*'', ''a/*'', ''a/*/c/d'', ''a/b/*/d'', ''a/*/c/*'', ''*'']"
  by code_simp

lemma first_segment_examples:
  "first_segment ''a/b/c/d'' = ''a''" "first_segment ''a/*/c/*'' = ''a''"
  "first_segment ''admin/settings'' = ''admin''" "first_segment ''*/settings'' = ''*''"
  by (simp_all add: first_segment_def)

lemma select_ignores_other_resource:
  assumes "up_resource stored \<notin> set patterns"
  shows "selectPermissions orderBy (before @ stored # after) userId action patterns =
         selectPermissions orderBy (before @ after) userId action patterns"
  using assms by (simp add: selectPermissions_def)

lemma repository_same:
  assumes "query1 userId action (generateResourcePatterns resource) =
           query2 userId action (generateResourcePatterns resource)"
  shows "findPermissionsWithWildcards query1 userId action resource =
         findPermissionsWithWildcards query2 userId action resource"
  using assms by (simp add: findPermissionsWithWildcards_def Let_def)

lemma checkPermission_same:
  assumes "repository1 userId action resource = repository2 userId action resource"
  shows "checkPermission repository1 userId action resource =
         checkPermission repository2 userId action resource"
  using assms by (simp add: checkPermission_def checkPermission_try_def)

lemma authorize_same:
  assumes "\<And>userId action. checkPermission repository1 userId action R =
                             checkPermission repository2 userId action R"
    and "mapPathToResource (req_path request) = R"
  shows "authorize toUpperCase validateToken repository1 request =
         authorize toUpperCase validateToken repository2 request"
  unfolding authorize_def authorize_try_def Let_def assms(2) assms(1) ..

lemma settings_decision:
  "checkPermission (findPermissionsWithWildcards (selectPermissions (\<lambda>rows. rows) [settingsAllow]))
     ''u1'' Read ''admin/settings'' =
   \<lparr>allowed = True,
    matchedPermissions =
      [\<lparr>mp_action = Read, mp_resource = ''admin/settings'', mp_effect = Allow,
        mp_score = Some (Num 1, Num 2, Num 0)\<rparr>],
    reason = ''User has read permission for admin/settings''\<rparr>"
  by code_simp

text \<open>
  Claim C10. For every resource whose first segment is not the wildcard token, every
  pattern that either version of \<^verbatim>\<open>generateResourcePatterns\<close> returns, other than the
  global pattern, has the first segment of the resource as its first segment. So a stored
  record whose pattern starts with another segment is never among the queried patterns:
  the statement of the repository selects the same rows from the table with and without
  that record, for the patterns of either version, and the results of
  \<^verbatim>\<open>checkPermission\<close> and of \<^verbatim>\<open>authorize\<close> for the resource are the same with
  and without it.
\<close>

theorem first_segment_fixed:
  assumes "first_segment R \<noteq> ''*''" and "P \<noteq> ''*''"
  shows "(P \<in> set (generateResourcePatterns R) \<longrightarrow> first_segment P = first_segment R) \<and>
         (P \<in> set (generateResourcePatterns_part_000 R) \<longrightarrow> first_segment P = first_segment R) \<and>
         (first_segment P \<noteq> first_segment R \<and> up_resource stored = P \<longrightarrow>
            selectPermissions orderBy (before @ stored # after) userId action
                (generateResourcePatterns R) =
              selectPermissions orderBy (before @ after) userId action
                (generateResourcePatterns R) \<and>
            selectPermissions orderBy (before @ stored # after) userId action
                (generateResourcePatterns_part_000 R) =
              selectPermissions orderBy (before @ after) userId action
                (generateResourcePatterns_part_000 R) \<and>
            checkPermission
                (findPermissionsWithWildcards (selectPermissions orderBy (before @ stored # after)))
                userId action R =
              checkPermission
                (findPermissionsWithWildcards (selectPermissions orderBy (before @ after)))
                userId action R \<and>
            (\<forall>toUpperCase validateToken request.
               mapPathToResource (req_path request) = R \<longrightarrow>
                 authorize toUpperCase validateToken
                   (findPermissionsWithWildcards (selectPermissions orderBy (before @ stored # after)))
                   request =
                 authorize toUpperCase validateToken
                   (findPermissionsWithWildcards (selectPermissions orderBy (before @ after)))
                   request))"
proof -
  note inv = generateResourcePatterns_first [of P R] generateResourcePatterns_part_000_first [of P R]
  let ?with = "selectPermissions orderBy (before @ stored # after)"
  let ?without = "selectPermissions orderBy (before @ after)"
  have rest: "?with userId action (generateResourcePatterns R) =
        ?without userId action (generateResourcePatterns R) \<and>
      ?with userId action (generateResourcePatterns_part_000 R) =
        ?without userId action (generateResourcePatterns_part_000 R) \<and>
      checkPermission (findPermissionsWithWildcards ?with) userId action R =
        checkPermission (findPermissionsWithWildcards ?without) userId action R \<and>
      (\<forall>toUpperCase validateToken request.
         mapPathToResource (req_path request) = R \<longrightarrow>
           authorize toUpperCase validateToken (findPermissionsWithWildcards ?with) request =
           authorize toUpperCase validateToken (findPermissionsWithWildcards ?without) request)"
    if other: "first_segment P \<noteq> first_segment R" and stored: "up_resource stored = P"
  proof -
    from other inv assms(2) have 1: "up_resource stored \<notin> set (generateResourcePatterns R)"
      and 2: "up_resource stored \<notin> set (generateResourcePatterns_part_000 R)"
      unfolding stored by blast+
    have q: "?with u a (generateResourcePatterns R) = ?without u a (generateResourcePatterns R)"
      for u a
      by (rule select_ignores_other_resource [OF 1])
    have cp: "checkPermission (findPermissionsWithWildcards ?with) u a R =
        checkPermission (findPermissionsWithWildcards ?without) u a R" for u a
      by (rule checkPermission_same, rule repository_same, rule q)
    have "authorize toUpperCase validateToken (findPermissionsWithWildcards ?with) request =
        authorize toUpperCase validateToken (findPermissionsWithWildcards ?without) request"
      if "mapPathToResource (req_path request) = R" for toUpperCase validateToken request
      by (rule authorize_same [OF cp that])
    with q cp select_ignores_other_resource [OF 2] show ?thesis by blast
  qed
  with inv assms(2) show ?thesis by blast
qed

theorem first_segment_fixed_witness:
  "first_segment ''a/b/c/d'' \<noteq> ''*'' \<and> ''a/*/c/*'' \<noteq> ''*'' \<and>
   ''a/*/c/*'' \<in> set (generateResourcePatterns ''a/b/c/d'') \<and>
   ''a/*/c/*'' \<in> set (generateResourcePatterns_part_000 ''a/b/c/d'') \<and>
   first_segment ''a/*/c/*'' = first_segment ''a/b/c/d'' \<and>
   ''*/settings'' \<notin> set (generateResourcePatterns ''admin/settings'') \<and>
   ''*/settings'' \<notin> set (generateResourcePatterns_part_000 ''admin/settings'') \<and>
   first_segment ''admin/settings'' \<noteq> ''*'' \<and> ''*/settings'' \<noteq> ''*'' \<and>
   first_segment ''*/settings'' \<noteq> first_segment ''admin/settings'' \<and>
   up_resource foreignDeny = ''*/settings'' \<and> up_effect foreignDeny = Deny \<and>
   checkPermission
     (findPermissionsWithWildcards (selectPermissions (\<lambda>rows. rows) [settingsAllow, foreignDeny]))
     ''u1'' Read ''admin/settings'' =
   \<lparr>allowed = True,
    matchedPermissions =
      [\<lparr>mp_action = Read, mp_resource = ''admin/settings'', mp_effect = Allow,
        mp_score = Some (Num 1, Num 2, Num 0)\<rparr>],
    reason = ''User has read permission for admin/settings''\<rparr>"
proof -
  have generated: "first_segment ''a/*/c/*'' = first_segment ''a/b/c/d''"
    using first_segment_fixed [where R = "''a/b/c/d''" and P = "''a/*/c/*''"]
    by (simp add: first_segment_examples patterns_abcd)
  have foreign: "up_resource foreignDeny = ''*/settings''" "up_effect foreignDeny = Deny"
    by (simp_all add: foreignDeny_def)
  note fact = first_segment_fixed [where R = "''admin/settings''" and P = "''*/settings''"
      and stored = foreignDeny and orderBy = "\<lambda>rows. rows" and before = "[settingsAllow]"
      and after = "[]" and userId = "''u1''" and action = Read]
  from fact have absent: "''*/settings'' \<notin> set (generateResourcePatterns ''admin/settings'')"
      "''*/settings'' \<notin> set (generateResourcePatterns_part_000 ''admin/settings'')"
    by (auto simp add: first_segment_examples)
  from fact have "checkPermission
      (findPermissionsWithWildcards (selectPermissions (\<lambda>rows. rows) [settingsAllow, foreignDeny]))
      ''u1'' Read ''admin/settings'' =
    checkPermission
      (findPermissionsWithWildcards (selectPermissions (\<lambda>rows. rows) [settingsAllow]))
      ''u1'' Read ''admin/settings''"
    by (simp add: first_segment_examples foreign)
  with generated absent foreign show ?thesis
    by (simp add: first_segment_examples patterns_abcd patterns_part_000_abcd settings_decision)
qed

lemma single_wildcard_three:
  assumes "length segments = 3"
  shows "map (\<lambda>i. js_join ''/'' (wildcardAt i segments)) [1..<length segments - 1] =
         [hd segments @ ''/*/'' @ last segments]"
proof -
  from assms obtain a b c where segs: "segments = [a, b, c]"
    by (auto simp: numeral_3_eq_3 length_Suc_conv)
  have "[1..<length segments - 1] = [1]"
    by (simp add: segs)
  moreover have "wildcardAt 1 segments = [a, ''*'', c]"
    by (simp add: segs wildcardAt_def upt_rec)
  ultimately show ?thesis by (simp add: segs)
qed

text \<open>
  Claim C6, amended. For every resource of at most three segments the two versions of
  \<^verbatim>\<open>generateResourcePatterns\<close> return the same set of patterns.
\<close>

theorem generators_agree_up_to_three_segments:
  assumes "length (js_split (CHR ''/'') R) \<le> 3"
  shows "set (generateResourcePatterns R) = set (generateResourcePatterns_part_000 R)"
proof (cases "length (js_split (CHR ''/'') R) = 3")
  case True
  have middle: "set (map (\<lambda>i. js_join ''/'' (wildcardAt i (js_split (CHR ''/'') R)))
                     [1..<length (js_split (CHR ''/'') R) - 1]) =
      {hd (js_split (CHR ''/'') R) @ ''/*/'' @ last (js_split (CHR ''/'') R)}"
    unfolding single_wildcard_three [OF True] by simp
  show ?thesis
    unfolding set_generateResourcePatterns set_generateResourcePatterns_part_000 Let_def middle
    by (simp add: True insert_commute)
next
  case False
  with assms have "length (js_split (CHR ''/'') R) < 3" by simp
  then show ?thesis
    unfolding set_generateResourcePatterns set_generateResourcePatterns_part_000 Let_def
    by simp
qed

lemma segments_abc: "js_split (CHR ''/'') ''a/b/c'' = [''a'', ''b'', ''c'']"
  by simp

theorem generators_agree_up_to_three_segments_witness:
  "length (js_split (CHR ''/'') ''a/b/c'') \<le> 3 \<and>
   set (generateResourcePatterns ''a/b/c'') = set (generateResourcePatterns_part_000 ''a/b/c'')"
  using generators_agree_up_to_three_segments [of "''a/b/c''"]
  by (simp add: segments_abc)

lemma patterns_abcde:
  "''a/*/c/*/e'' \<in> set (generateResourcePatterns_part_000 ''a/b/c/d/e'')"
  "''a/*/c/*/e'' \<notin> set (generateResourcePatterns ''a/b/c/d/e'')"
  by code_simp+

text \<open>
  Claim C6 as stated fails: for \<^verbatim>\<open>a/b/c/d\<close> only the version of
  \<^verbatim>\<open>pathMapper.ts\<close> generates \<^verbatim>\<open>a/*/d\<close>, and for \<^verbatim>\<open>a/b/c/d/e\<close> only the
  other version generates \<^verbatim>\<open>a/*/c/*/e\<close>.
\<close>

theorem generators_differ_counterexample:
  "set (generateResourcePatterns ''a/b/c/d'') \<noteq> set (generateResourcePatterns_part_000 ''a/b/c/d'') \<and>
   set (generateResourcePatterns ''a/b/c/d/e'') \<noteq> set (generateResourcePatterns_part_000 ''a/b/c/d/e'')"
proof -
  have "''a/*/d'' \<in> set (generateResourcePatterns ''a/b/c/d'')"
    by (simp add: patterns_abcd)
  moreover have "''a/*/d'' \<notin> set (generateResourcePatterns_part_000 ''a/b/c/d'')"
    by (simp add: patterns_part_000_abcd)
  ultimately show ?thesis
    using patterns_abcde by blast
qed

end
